theory Spec2Isabelle
  imports Main
begin

section \<open>The large-payload codec (codec.py)\<close>

text \<open>
  The codec offloads payloads above a size threshold to a remote blob store and puts a
  reference in their place (\<open>encode\<close>), and fetches them back (\<open>decode\<close>).

  The model follows \<^verbatim>\<open>src/codec/python/codec.py\<close> line by line.
  \<^item> A \<open>Payload\<close> is an object on a heap: \<open>encode\<close> and \<open>decode\<close> are handed references
    and return references, so that "the same object" and "a new object" can be told apart.
  \<^item> An exception is a value \<open>Inl e\<close>; every function returns its result with the state
    it leaves.
  \<^item> What the file imports (protobuf, hashlib, json, base64, requests, the Temporal
    converter, the generated \<open>codec_pb2\<close>) is a field of a \<open>runtime\<close> record. The theorems
    over an arbitrary runtime hold whatever these libraries do; the only assumption is that
    a library call does not change a \<open>Payload\<close> it is given. Two runtimes are defined
    below to run the model on concrete inputs.
  \<^item> \<open>encode\<close> and \<open>decode\<close> are coroutines that never await: awaiting one runs its
    body to the end, which is what the model does.
\<close>

subsection \<open>Data\<close>

type_synonym bytes = string

text \<open>
  A protobuf \<open>map<string, bytes>\<close>: the entries, with distinct keys.
  \<open>m.get(k)\<close> is \<open>map_of m k\<close>.
\<close>

type_synonym metadata_map = "(string \<times> bytes) list"

text \<open>\<open>temporalio.api.common.v1.Payload\<close>.\<close>

record Payload =
  metadata :: metadata_map
  data :: bytes

text \<open>
  Modelled from the spec: \<open>codec_pb2.RemotePayload\<close>, the Reference Record (the generated
  module is not in the source tree): the original metadata, the original size in bytes,
  the digest string and the key the store assigned. The fields carry the prefix \<open>rp_\<close>.
\<close>

record RemotePayload =
  rp_metadata :: metadata_map
  rp_size :: nat
  rp_digest :: string
  rp_key :: string

text \<open>The attributes \<open>__init__\<close> sets (the converter's behaviour is in the runtime).\<close>

record LargePayloadCodec =
  namespace :: string
  url :: string
  min_bytes :: int

text \<open>
  What the codec hands to \<open>hashlib.sha256\<close> and to the \<open>Payload\<close> constructor: a
  \<open>bytes\<close> object (\<open>payload.data\<close>), or the file-like \<open>resp.raw\<close> of a response,
  here with the body it would yield when read.
\<close>

datatype pyobj = PyBytes bytes | PyStream bytes

text \<open>
  The \<open>params\<close> argument of a request: \<open>putLargePayload\<close> passes a dict,
  \<open>getLargePayload\<close> passes the set literal \<open>{"key", remote_payload.key}\<close>.
\<close>

datatype query = ParamDict "(string \<times> string) list" | ParamSet "string list"

datatype http_method = GET | PUT

record http_request =
  req_method :: http_method
  req_url :: string
  req_params :: query
  req_headers :: "(string \<times> string) list"
  req_data :: bytes

record http_response =
  status_code :: nat
  content :: bytes

text \<open>
  The exceptions. \<open>DigestsDoNotMatch wanted got\<close> is the \<open>Exception\<close> of line 102.
\<close>

datatype error =
    TypeError
  | ValueError
  | KeyError
  | RuntimeError
  | UnicodeDecodeError
  | ConnectionError
  | HTTPError nat
  | DigestsDoNotMatch string string

subsection \<open>The runtime\<close>

text \<open>
  One field per library call of the source, at the argument the source gives it:
  \<^item> \<open>ByteSize\<close>: \<open>payload.ByteSize()\<close>, the size of the serialized message;
  \<^item> \<open>sha256_hexdigest\<close>: \<open>hashlib.sha256(x).hexdigest()\<close>;
  \<^item> \<open>json_dumps\<close>: \<open>json.dumps(payload.metadata)\<close>;
  \<^item> \<open>b64decode\<close>: \<open>base64.b64decode(remote_payload.size)\<close>, at an integer;
  \<^item> \<open>new_Payload\<close>: \<open>Payload(metadata=m, data=x)\<close>;
  \<^item> \<open>to_payloads\<close>: \<open>self.converter.to_payloads([r])[0]\<close>;
  \<^item> \<open>from_payloads\<close>:
    \<open>self.converter.from_payloads([p], type_hints=[codec_pb2.RemotePayload])[0]\<close>;
  \<^item> \<open>transport\<close>: what \<open>requests.put\<close> and \<open>requests.get\<close> do with a request and the
    remote store's state \<open>'s\<close>: an exception or a response, and the store afterwards;
  \<^item> \<open>json_key\<close>: \<open>resp.json()["key"]\<close>, from the response body.

  \<open>base64.b64encode\<close>, \<open>str.encode\<close>, \<open>bytes.decode\<close> and \<open>raise_for_status\<close> are
  short enough to be modelled as they are.
\<close>

record 's runtime =
  ByteSize :: "Payload \<Rightarrow> nat"
  sha256_hexdigest :: "pyobj \<Rightarrow> error + string"
  json_dumps :: "metadata_map \<Rightarrow> error + string"
  b64decode :: "nat \<Rightarrow> error + bytes"
  new_Payload :: "metadata_map \<Rightarrow> pyobj \<Rightarrow> error + Payload"
  to_payloads :: "RemotePayload \<Rightarrow> error + Payload"
  from_payloads :: "Payload \<Rightarrow> error + RemotePayload"
  transport :: "http_request \<Rightarrow> 's \<Rightarrow> (error + http_response) \<times> 's"
  json_key :: "bytes \<Rightarrow> error + string"

subsection \<open>The state\<close>

text \<open>
  \<open>self\<close> is the codec object; \<open>heap\<close> holds the \<open>Payload\<close> objects, those below
  \<open>next_addr\<close> being allocated; \<open>requests_log\<close> lists the calls made to
  \<open>requests.put\<close> and \<open>requests.get\<close>, oldest first; \<open>remote\<close> is the remote store.
\<close>

record 's world =
  self :: LargePayloadCodec
  heap :: "nat \<Rightarrow> Payload"
  next_addr :: nat
  requests_log :: "http_request list"
  remote :: 's

definition alloc :: "Payload \<Rightarrow> 's world \<Rightarrow> nat \<times> 's world" where
  "alloc p w =
     (next_addr w, w\<lparr>heap := (heap w)(next_addr w := p), next_addr := Suc (next_addr w)\<rparr>)"

definition request ::
  "'s runtime \<Rightarrow> http_request \<Rightarrow> 's world \<Rightarrow> (error + http_response) \<times> 's world" where
  "request rt req w =
     (case transport rt req (remote w) of
        (r, s') \<Rightarrow> (r, w\<lparr>requests_log := requests_log w @ [req], remote := s'\<rparr>))"

text \<open>\<open>resp.raise_for_status()\<close>: an \<open>HTTPError\<close> for a 4xx or 5xx status.\<close>

definition raise_for_status :: "http_response \<Rightarrow> error + unit" where
  "raise_for_status resp =
     (if 400 \<le> status_code resp \<and> status_code resp < 600
      then Inl (HTTPError (status_code resp)) else Inr ())"

subsection \<open>Strings and bytes\<close>

text \<open>
  A \<open>str\<close> is held as its UTF-8 bytes. Then \<open>s.encode()\<close> is \<open>s\<close> itself, and
  \<open>b.decode()\<close> is \<open>b\<close> when \<open>b\<close> is well-formed UTF-8 and raises
  \<open>UnicodeDecodeError\<close> otherwise.
\<close>

definition in_range :: "nat \<Rightarrow> nat \<Rightarrow> char \<Rightarrow> bool" where
  "in_range lo hi c = (lo \<le> of_char c \<and> of_char c \<le> hi)"

fun utf8_valid :: "bytes \<Rightarrow> bool" where
  "utf8_valid [] = True"
| "utf8_valid (a # rest) =
     (if in_range 0 0x7F a then utf8_valid rest
      else if in_range 0xC2 0xDF a then
        (case rest of
           b # r \<Rightarrow> in_range 0x80 0xBF b \<and> utf8_valid r
         | _ \<Rightarrow> False)
      else if in_range 0xE0 0xEF a then
        (case rest of
           b # c # r \<Rightarrow>
             in_range (if in_range 0xE0 0xE0 a then 0xA0 else 0x80)
                      (if in_range 0xED 0xED a then 0x9F else 0xBF) b
             \<and> in_range 0x80 0xBF c \<and> utf8_valid r
         | _ \<Rightarrow> False)
      else if in_range 0xF0 0xF4 a then
        (case rest of
           b # c # d # r \<Rightarrow>
             in_range (if in_range 0xF0 0xF0 a then 0x90 else 0x80)
                      (if in_range 0xF4 0xF4 a then 0x8F else 0xBF) b
             \<and> in_range 0x80 0xBF c \<and> in_range 0x80 0xBF d \<and> utf8_valid r
         | _ \<Rightarrow> False)
      else False)"

definition bytes_decode :: "bytes \<Rightarrow> error + string" where
  "bytes_decode b = (if utf8_valid b then Inr b else Inl UnicodeDecodeError)"

subsection \<open>base64.b64encode\<close>

definition b64_alphabet :: string where
  "b64_alphabet = ''ABCDEFGHIJKLMNOPQRSTUVWXYZabcdefghijklmnopqrstuvwxyz0123456789+/''"

definition b64_char :: "nat \<Rightarrow> char" where
  "b64_char n = b64_alphabet ! (n mod 64)"

fun b64encode :: "bytes \<Rightarrow> bytes" where
  "b64encode [] = []"
| "b64encode [a] =
     (let n = of_char a * 65536
      in [b64_char (n div 262144), b64_char (n div 4096), CHR ''='', CHR ''=''])"
| "b64encode [a, b] =
     (let n = of_char a * 65536 + of_char b * 256
      in [b64_char (n div 262144), b64_char (n div 4096), b64_char (n div 64), CHR ''=''])"
| "b64encode (a # b # c # rest) =
     (let n = of_char a * 65536 + of_char b * 256 + of_char c
      in [b64_char (n div 262144), b64_char (n div 4096), b64_char (n div 64), b64_char n]
         @ b64encode rest)"

subsection \<open>The codec\<close>

definition MIN_LARGE_PAYLOAD_BYTES :: int where
  "MIN_LARGE_PAYLOAD_BYTES = 128000"

definition REMOTE_CODEC_NAME :: string where
  "REMOTE_CODEC_NAME = ''temporal.io/remote-codec''"

text \<open>\<open>__init__\<close>; \<open>None\<close> for \<open>min_bytes\<close> is the argument left out.\<close>

definition LargePayloadCodec_init :: "string \<Rightarrow> string \<Rightarrow> int option \<Rightarrow> LargePayloadCodec" where
  "LargePayloadCodec_init ns u mb =
     \<lparr>namespace = ns, url = u,
      min_bytes = (case mb of None \<Rightarrow> MIN_LARGE_PAYLOAD_BYTES | Some n \<Rightarrow> n)\<rparr>"

text \<open>
  Lines 54 to 57, the value of the header \<open>X-Temporal-Metadata\<close>:
  \<open>base64.b64encode(json.dumps(payload.metadata).encode()).decode()\<close>. A \<open>str\<close> is held
  as its UTF-8 bytes, so \<open>encode\<close> changes nothing, and neither does \<open>decode\<close> on the
  ASCII that \<open>b64encode\<close> returns.
\<close>

definition temporal_metadata_header :: "'s runtime \<Rightarrow> metadata_map \<Rightarrow> error + string" where
  "temporal_metadata_header rt m =
     (case json_dumps rt m of
        Inl e \<Rightarrow> Inl e
      | Inr metadata_json \<Rightarrow> Inr (b64encode metadata_json))"

text \<open>
  \<open>putLargePayload\<close>, lines 48 to 76, in the order of the source: the digest of
  \<open>payload.data\<close> (line 50), the metadata header (55 to 58), \<open>requests.put\<close> and
  \<open>raise_for_status\<close> (60 to 66), \<open>resp.json()["key"]\<close> and the \<open>RemotePayload\<close> (68 to
  73), the converter's payload for it, a new object, returned as it is (74 to 76).
\<close>

definition putLargePayload :: "'s runtime \<Rightarrow> nat \<Rightarrow> 's world \<Rightarrow> (error + nat) \<times> 's world" where
  "putLargePayload rt payload w =
     (case sha256_hexdigest rt (PyBytes (data (heap w payload))) of
        Inl e \<Rightarrow> (Inl e, w)
      | Inr h \<Rightarrow>
     (case temporal_metadata_header rt (metadata (heap w payload)) of
        Inl e \<Rightarrow> (Inl e, w)
      | Inr b64_metadata \<Rightarrow>
     (case request rt
             \<lparr>req_method = PUT,
              req_url = url (self w) @ ''v2/blobs/put'',
              req_params = ParamDict [(''digest'', ''sha256:'' @ h),
                                      (''namespace'', namespace (self w))],
              req_headers = [(''Content-Type'', ''application/octet-stream''),
                             (''X-Temporal-Metadata'', b64_metadata)],
              req_data = data (heap w payload)\<rparr> w of
        (Inl e, w1) \<Rightarrow> (Inl e, w1)
      | (Inr resp, w1) \<Rightarrow>
     (case raise_for_status resp of
        Inl e \<Rightarrow> (Inl e, w1)
      | Inr _ \<Rightarrow>
     (case json_key rt (content resp) of
        Inl e \<Rightarrow> (Inl e, w1)
      | Inr k \<Rightarrow>
     (case to_payloads rt
             \<lparr>rp_metadata = metadata (heap w payload),
              rp_size = length (data (heap w payload)),
              rp_digest = ''sha256:'' @ h,
              rp_key = k\<rparr> of
        Inl e \<Rightarrow> (Inl e, w1)
      | Inr result \<Rightarrow> (case alloc result w1 of (r, w2) \<Rightarrow> (Inr r, w2))))))))"

text \<open>
  \<open>getLargePayload\<close>, lines 78 to 107: the converter's reading of the payload (81), the
  set literal for \<open>params\<close> (83; one element when the key is \<open>"key"\<close>), the header
  from \<open>base64.b64decode(remote_payload.size).decode()\<close> (86), \<open>requests.get\<close> on
  \<open>self.url + "v2/blobs/put"\<close> and \<open>raise_for_status\<close> (90 to 95), the digest of
  \<open>resp.raw\<close> (99), the comparison and its \<open>Exception\<close> (101, 102), the \<open>Payload\<close>
  built from \<open>resp.raw\<close>, a new object (104 to 107).
\<close>

definition getLargePayload :: "'s runtime \<Rightarrow> nat \<Rightarrow> 's world \<Rightarrow> (error + nat) \<times> 's world" where
  "getLargePayload rt payload w =
     (case from_payloads rt (heap w payload) of
        Inl e \<Rightarrow> (Inl e, w)
      | Inr remote_payload \<Rightarrow>
     (case b64decode rt (rp_size remote_payload) of
        Inl e \<Rightarrow> (Inl e, w)
      | Inr b \<Rightarrow>
     (case bytes_decode b of
        Inl e \<Rightarrow> (Inl e, w)
      | Inr expected \<Rightarrow>
     (case request rt
             \<lparr>req_method = GET,
              req_url = url (self w) @ ''v2/blobs/put'',
              req_params = ParamSet (remdups [''key'', rp_key remote_payload]),
              req_headers = [(''Content-Type'', ''application/octet-stream''),
                             (''X-Payload-Expected-Content-Length'', expected)],
              req_data = []\<rparr> w of
        (Inl e, w1) \<Rightarrow> (Inl e, w1)
      | (Inr resp, w1) \<Rightarrow>
     (case raise_for_status resp of
        Inl e \<Rightarrow> (Inl e, w1)
      | Inr _ \<Rightarrow>
     (case sha256_hexdigest rt (PyStream (content resp)) of
        Inl e \<Rightarrow> (Inl e, w1)
      | Inr h \<Rightarrow>
     (if ''sha256:'' @ h \<noteq> rp_digest remote_payload
      then (Inl (DigestsDoNotMatch (rp_digest remote_payload) (''sha256:'' @ h)), w1)
      else
     (case new_Payload rt (rp_metadata remote_payload) (PyStream (content resp)) of
        Inl e \<Rightarrow> (Inl e, w1)
      | Inr p \<Rightarrow> (case alloc p w1 of (r, w2) \<Rightarrow> (Inr r, w2))))))))))"

text \<open>
  The loops of \<open>encode\<close> (lines 27 to 34) and \<open>decode\<close> (36 to 46), with \<open>result\<close>
  the list built so far. An exception leaves the loop, and the list is lost.
  \<open>payload.metadata.get(REMOTE_CODEC_NAME) != None\<close> holds for every value under the
  key, the empty one too.
\<close>

fun encode_loop ::
  "'s runtime \<Rightarrow> nat list \<Rightarrow> nat list \<Rightarrow> 's world \<Rightarrow> (error + nat list) \<times> 's world" where
  "encode_loop rt [] result w = (Inr result, w)"
| "encode_loop rt (payload # rest) result w =
     (if int (ByteSize rt (heap w payload)) > min_bytes (self w)
      then (case putLargePayload rt payload w of
              (Inl e, w') \<Rightarrow> (Inl e, w')
            | (Inr r, w') \<Rightarrow> encode_loop rt rest (result @ [r]) w')
      else encode_loop rt rest (result @ [payload]) w)"

definition encode :: "'s runtime \<Rightarrow> nat list \<Rightarrow> 's world \<Rightarrow> (error + nat list) \<times> 's world" where
  "encode rt payloads w = encode_loop rt payloads [] w"

fun decode_loop ::
  "'s runtime \<Rightarrow> nat list \<Rightarrow> nat list \<Rightarrow> 's world \<Rightarrow> (error + nat list) \<times> 's world" where
  "decode_loop rt [] result w = (Inr result, w)"
| "decode_loop rt (payload # rest) result w =
     (if map_of (metadata (heap w payload)) REMOTE_CODEC_NAME \<noteq> None
      then (case getLargePayload rt payload w of
              (Inl e, w') \<Rightarrow> (Inl e, w')
            | (Inr r, w') \<Rightarrow> decode_loop rt rest (result @ [r]) w')
      else decode_loop rt rest (result @ [payload]) w)"

definition decode :: "'s runtime \<Rightarrow> nat list \<Rightarrow> 's world \<Rightarrow> (error + nat list) \<times> 's world" where
  "decode rt payloads w = decode_loop rt payloads [] w"

subsection \<open>Notions the statements use\<close>

text \<open>\<open>decode(encode(payloads))\<close>: \<open>decode\<close> runs on what \<open>encode\<close> returned.\<close>

definition round_trip ::
  "'s runtime \<Rightarrow> nat list \<Rightarrow> 's world \<Rightarrow> (error + nat list) \<times> 's world" where
  "round_trip rt payloads w =
     (case encode rt payloads w of
        (Inl e, w') \<Rightarrow> (Inl e, w')
      | (Inr encoded, w') \<Rightarrow> decode rt encoded w')"

text \<open>The test of line 41: the payload's metadata has the key \<open>REMOTE_CODEC_NAME\<close>.\<close>

definition has_marker :: "Payload \<Rightarrow> bool" where
  "has_marker p = (map_of (metadata p) REMOTE_CODEC_NAME \<noteq> None)"

text \<open>
  \<open>extends w w'\<close>: from \<open>w\<close> to \<open>w'\<close> the codec object and every object allocated in
  \<open>w\<close> are unchanged; \<open>w'\<close> may hold new objects.
\<close>

definition extends :: "'s world \<Rightarrow> 's world \<Rightarrow> bool" where
  "extends w w' =
     (self w' = self w \<and> next_addr w \<le> next_addr w'
      \<and> (\<forall>a. a < next_addr w \<longrightarrow> heap w' a = heap w a))"

text \<open>
  What one turn of a loop gives for the input \<open>a\<close>, seen from the state \<open>w\<close> the batch
  started in and the state \<open>w'\<close> it ended in: the input itself, or an object allocated
  meanwhile that \<open>putLargePayload\<close> (\<open>getLargePayload\<close>) returned for it and that
  is unchanged since.
\<close>

definition encode_step_ok ::
  "'s runtime \<Rightarrow> 's world \<Rightarrow> 's world \<Rightarrow> nat \<Rightarrow> nat \<Rightarrow> bool" where
  "encode_step_ok rt w w' a r =
     (if int (ByteSize rt (heap w a)) > min_bytes (self w)
      then next_addr w \<le> r \<and> r < next_addr w'
           \<and> (\<exists>w1 w2. extends w w1 \<and> putLargePayload rt a w1 = (Inr r, w2)
                      \<and> extends w2 w')
      else r = a)"

definition decode_step_ok ::
  "'s runtime \<Rightarrow> 's world \<Rightarrow> 's world \<Rightarrow> nat \<Rightarrow> nat \<Rightarrow> bool" where
  "decode_step_ok rt w w' a r =
     (if has_marker (heap w a)
      then next_addr w \<le> r \<and> r < next_addr w'
           \<and> (\<exists>w1 w2. extends w w1 \<and> getLargePayload rt a w1 = (Inr r, w2)
                      \<and> extends w2 w')
      else r = a)"

section \<open>Two runtimes\<close>

text \<open>
  To run the model, the libraries need values. \<open>cpython\<close> gives each library call the
  outcome it has in CPython at the argument the codec passes; \<open>lenient\<close> differs from it
  only where \<open>cpython\<close> raises \<open>TypeError\<close> or \<open>ValueError\<close> on an argument of the wrong
  type, and lets the call through there, so that the lines behind it can be run too.

  Three parts of both are stand-ins: the digest (the hexadecimal digits of the bytes,
  not SHA-256), the converter's wire format (netstrings, not protobuf JSON), and the
  remote store. The theorems over an arbitrary runtime do not depend on them; in the runs
  below they decide which digests, keys and bytes appear, not which branch is taken.
\<close>

subsection \<open>The size of a serialized Payload\<close>

text \<open>
  \<open>message Payload { map<string, bytes> metadata = 1; bytes data = 2; }\<close> on the wire:
  a length-delimited field is a tag byte, the length as a varint and the content; a map
  entry is a length-delimited message of a key field and a value field; an empty \<open>data\<close>
  is left out.
\<close>

fun varint_len :: "nat \<Rightarrow> nat" where
  "varint_len n = (if n < 128 then 1 else 1 + varint_len (n div 128))"

declare varint_len.simps [simp del]

definition delimited_len :: "nat \<Rightarrow> nat" where
  "delimited_len n = 1 + varint_len n + n"

definition proto_ByteSize :: "Payload \<Rightarrow> nat" where
  "proto_ByteSize p =
     sum_list (map (\<lambda>(k, v). delimited_len (delimited_len (length k) + delimited_len (length v)))
                   (metadata p))
     + (if data p = [] then 0 else delimited_len (length (data p)))"

subsection \<open>Stand-ins: digest, wire format, store\<close>

definition hex_digits :: "bytes \<Rightarrow> string" where
  "hex_digits b =
     concat (map (\<lambda>c. [''0123456789abcdef'' ! (of_char c div 16),
                         ''0123456789abcdef'' ! (of_char c mod 16)]) b)"

fun decimal :: "nat \<Rightarrow> string" where
  "decimal n =
     (if n < 10 then [''0123456789'' ! n]
      else decimal (n div 10) @ [''0123456789'' ! (n mod 10)])"

declare decimal.simps [simp del]

text \<open>A string as a netstring: its length in decimal, a colon, the string.\<close>

definition netstring :: "string \<Rightarrow> string" where
  "netstring s = decimal (length s) @ '':'' @ s"

fun read_nat :: "string \<Rightarrow> nat \<Rightarrow> (nat \<times> string) option" where
  "read_nat [] n = None"
| "read_nat (c # cs) n =
     (if c = CHR '':'' then Some (n, cs)
      else if in_range 48 57 c then read_nat cs (10 * n + (of_char c - 48))
      else None)"

definition read_netstring :: "string \<Rightarrow> (string \<times> string) option" where
  "read_netstring s =
     (case read_nat s 0 of
        None \<Rightarrow> None
      | Some (n, r) \<Rightarrow> if n \<le> length r then Some (take n r, drop n r) else None)"

text \<open>The metadata entries, read until the input ends; the fuel is the input's length.\<close>

fun read_entries :: "nat \<Rightarrow> string \<Rightarrow> metadata_map option" where
  "read_entries 0 s = (if s = [] then Some [] else None)"
| "read_entries (Suc fuel) s =
     (if s = [] then Some []
      else case read_netstring s of
             None \<Rightarrow> None
           | Some (k, s1) \<Rightarrow>
          (case read_netstring s1 of
             None \<Rightarrow> None
           | Some (v, s2) \<Rightarrow>
          (case read_entries fuel s2 of
             None \<Rightarrow> None
           | Some m \<Rightarrow> Some ((k, v) # m))))"

definition wire :: "RemotePayload \<Rightarrow> bytes" where
  "wire r =
     netstring (rp_key r) @ netstring (rp_digest r) @ decimal (rp_size r) @ '':''
     @ concat (map (\<lambda>(k, v). netstring k @ netstring v) (rp_metadata r))"

definition unwire :: "bytes \<Rightarrow> RemotePayload option" where
  "unwire s =
     (case read_netstring s of
        None \<Rightarrow> None
      | Some (k, s1) \<Rightarrow>
     (case read_netstring s1 of
        None \<Rightarrow> None
      | Some (d, s2) \<Rightarrow>
     (case read_nat s2 0 of
        None \<Rightarrow> None
      | Some (n, s3) \<Rightarrow>
     (case read_entries (length s3) s3 of
        None \<Rightarrow> None
      | Some m \<Rightarrow> Some \<lparr>rp_metadata = m, rp_size = n, rp_digest = d, rp_key = k\<rparr>))))"

text \<open>
  The converter writes a protobuf message with the encoding \<open>json/protobuf\<close> and the
  message's type name; it knows nothing of the codec's marker.
\<close>

definition converter_to_payloads :: "RemotePayload \<Rightarrow> error + Payload" where
  "converter_to_payloads r =
     Inr \<lparr>metadata = [(''encoding'', ''json/protobuf''), (''messageType'', ''RemotePayload'')],
          data = wire r\<rparr>"

definition converter_from_payloads :: "Payload \<Rightarrow> error + RemotePayload" where
  "converter_from_payloads p =
     (case unwire (data p) of None \<Rightarrow> Inl RuntimeError | Some r \<Rightarrow> Inr r)"

definition starts_with :: "string \<Rightarrow> string \<Rightarrow> bool" where
  "starts_with s pre = (take (length pre) s = pre)"

definition ends_with :: "string \<Rightarrow> string \<Rightarrow> bool" where
  "ends_with s suf = (length suf \<le> length s \<and> drop (length s - length suf) s = suf)"

text \<open>The body of the store's answer to an upload, and \<open>resp.json()["key"]\<close> on it.\<close>

definition key_json :: "string \<Rightarrow> bytes" where
  \<open>key_json k = ''{"key": "'' @ k @ ''"}''\<close>

definition read_key_json :: "bytes \<Rightarrow> error + string" where
  \<open>read_key_json b =
     (if starts_with b ''{"key": "'' \<and> ends_with b ''"}'' \<and> 11 \<le> length b
      then Inr (take (length b - 11) (drop 9 b)) else Inl ValueError)\<close>

text \<open>
  Modelled from the spec: the remote store (its server is not in the source tree), as
  the wire protocol of section 6 has it. \<open>PUT .../v2/blobs/put?digest=d&namespace=n\<close>
  stores the body and answers with a key; \<open>GET .../v2/blobs/get?key=k\<close> answers with the
  blob stored under \<open>k\<close>, or 404; 400 is for a missing parameter, 404 for any other path.
\<close>

type_synonym blob_store = "(string \<times> bytes) list"

definition blob_store_serve :: "http_request \<Rightarrow> blob_store \<Rightarrow> http_response \<times> blob_store" where
  "blob_store_serve req s =
     (let ps = (case req_params req of ParamDict d \<Rightarrow> d | ParamSet _ \<Rightarrow> [])
      in if req_method req = PUT \<and> ends_with (req_url req) ''/v2/blobs/put'' then
           (case (map_of ps ''digest'', map_of ps ''namespace'') of
              (Some d, Some ns) \<Rightarrow>
                (\<lparr>status_code = 200, content = key_json (''/blobs/'' @ ns @ ''/'' @ d)\<rparr>,
                 (''/blobs/'' @ ns @ ''/'' @ d, req_data req) # s)
            | _ \<Rightarrow> (\<lparr>status_code = 400, content = []\<rparr>, s))
         else if req_method req = GET \<and> ends_with (req_url req) ''/v2/blobs/get'' then
           (case map_of ps ''key'' of
              Some k \<Rightarrow>
                (case map_of s k of
                   Some b \<Rightarrow> (\<lparr>status_code = 200, content = b\<rparr>, s)
                 | None \<Rightarrow> (\<lparr>status_code = 404, content = []\<rparr>, s))
            | None \<Rightarrow> (\<lparr>status_code = 400, content = []\<rparr>, s))
         else (\<lparr>status_code = 404, content = []\<rparr>, s))"

subsection \<open>The runtime \<open>cpython\<close>\<close>

text \<open>
  The library calls as CPython answers them:
  \<^item> \<open>hashlib.sha256(x)\<close> wants an object with the buffer interface. \<open>payload.data\<close> is
    \<open>bytes\<close>; \<open>resp.raw\<close> is the file-like urllib3 response, and raises \<open>TypeError\<close>.
  \<^item> \<open>json.dumps(x)\<close> writes dicts, lists, strings, numbers, booleans and \<open>None\<close>.
    \<open>payload.metadata\<close> is a protobuf map container, not a dict, and its values are
    \<open>bytes\<close>: \<open>TypeError\<close>.
  \<^item> \<open>base64.b64decode(x)\<close> wants a bytes-like object or an ASCII string.
    \<open>remote_payload.size\<close> is an integer: \<open>TypeError\<close>.
  \<^item> \<open>Payload(data=x)\<close> wants \<open>bytes\<close> for the field; \<open>resp.raw\<close> is a \<open>TypeError\<close>.
  \<^item> \<open>requests\<close> reads \<open>params\<close> as pairs of a key and a value. Of the set
    \<open>{"key", k}\<close> it takes the string \<open>"key"\<close> for a pair, and unpacking its three
    characters into two names raises \<open>ValueError\<close>; nothing is sent.
\<close>

definition cpython :: "blob_store runtime" where
  "cpython =
     \<lparr>ByteSize = proto_ByteSize,
      sha256_hexdigest =
        (\<lambda>x. case x of PyBytes b \<Rightarrow> Inr (hex_digits b) | PyStream _ \<Rightarrow> Inl TypeError),
      json_dumps = (\<lambda>m. Inl TypeError),
      b64decode = (\<lambda>n. Inl TypeError),
      new_Payload =
        (\<lambda>m x. case x of PyBytes b \<Rightarrow> Inr \<lparr>metadata = m, data = b\<rparr>
                        | PyStream _ \<Rightarrow> Inl TypeError),
      to_payloads = converter_to_payloads,
      from_payloads = converter_from_payloads,
      transport =
        (\<lambda>req s. case req_params req of
                    ParamSet _ \<Rightarrow> (Inl ValueError, s)
                  | ParamDict _ \<Rightarrow>
                      (case blob_store_serve req s of (resp, s') \<Rightarrow> (Inr resp, s'))),
      json_key = read_key_json\<rparr>"

subsection \<open>The runtime \<open>lenient\<close>\<close>

text \<open>
  Where \<open>cpython\<close> refuses an argument for its type, \<open>lenient\<close> takes it the way the
  calling line means it: \<open>json.dumps\<close> writes the map with its values as strings,
  \<open>b64decode\<close> gives the integer in decimal, \<open>sha256\<close> and \<open>Payload\<close> read the stream,
  and a request with a set for \<open>params\<close> is sent (the store finds no parameter in it).
\<close>

fun json_entries :: "metadata_map \<Rightarrow> string" where
  "json_entries [] = []"
| \<open>json_entries [(k, v)] = ''"'' @ k @ ''": "'' @ v @ ''"''\<close>
| \<open>json_entries ((k, v) # rest) = ''"'' @ k @ ''": "'' @ v @ ''", '' @ json_entries rest\<close>

definition lenient :: "blob_store runtime" where
  "lenient =
     cpython
      \<lparr>sha256_hexdigest :=
         (\<lambda>x. case x of PyBytes b \<Rightarrow> Inr (hex_digits b) | PyStream b \<Rightarrow> Inr (hex_digits b)),
       json_dumps := (\<lambda>m. Inr (''{'' @ json_entries m @ ''}'')),
       b64decode := (\<lambda>n. Inr (decimal n)),
       new_Payload :=
         (\<lambda>m x. case x of PyBytes b \<Rightarrow> Inr \<lparr>metadata = m, data = b\<rparr>
                         | PyStream b \<Rightarrow> Inr \<lparr>metadata = m, data = b\<rparr>),
       transport := (\<lambda>req s. case blob_store_serve req s of (resp, s') \<Rightarrow> (Inr resp, s'))\<rparr>"

subsection \<open>Payloads and states to run on\<close>

text \<open>
  The objects 0 to 7; object 1 is an empty payload.
  \<open>big\<close> is the payload of the specification's scenario: twenty bytes against a threshold
  of ten. \<open>light\<close> has five bytes of data and 33 bytes when serialized. \<open>marked\<close> is
  application data that carries the marker key. \<open>reference marker\<close> is the reference to
  \<open>big\<close> that an upload under the namespace \<open>ns1\<close> leaves, with the marker's value
  \<open>marker\<close>, or without the marker.
\<close>

definition plain :: Payload where
  "plain = \<lparr>metadata = [], data = ''hi''\<rparr>"

definition big :: Payload where
  "big = \<lparr>metadata = [(''encoding'', ''binary/plain'')], data = ''AAAAAAAAAAAAAAAAAAAA''\<rparr>"

definition light :: Payload where
  "light = \<lparr>metadata = [(''encoding'', ''binary/plain'')], data = ''hello''\<rparr>"

definition marked :: Payload where
  "marked = \<lparr>metadata = [(''encoding'', ''binary/plain''), (REMOTE_CODEC_NAME, ''v2'')],
             data = ''hello''\<rparr>"

definition big_record :: RemotePayload where
  "big_record =
     \<lparr>rp_metadata = metadata big, rp_size = 20,
      rp_digest = ''sha256:'' @ hex_digits (data big),
      rp_key = ''/blobs/ns1/sha256:'' @ hex_digits (data big)\<rparr>"

definition reference :: "bytes option \<Rightarrow> Payload" where
  "reference marker =
     \<lparr>metadata = [(''encoding'', ''json/protobuf''), (''messageType'', ''RemotePayload'')]
                 @ (case marker of None \<Rightarrow> [] | Some v \<Rightarrow> [(REMOTE_CODEC_NAME, v)]),
      data = wire big_record\<rparr>"

definition objects :: "nat \<Rightarrow> Payload" where
  "objects =
     (\<lambda>_. \<lparr>metadata = [], data = []\<rparr>)
       (0 := plain, 2 := big, 3 := light, 4 := marked,
        5 := reference (Some ''v2''), 6 := reference (Some []), 7 := reference None)"

text \<open>
  The state before a call: a codec for the namespace \<open>ns1\<close> with the given threshold (or
  the default), the objects above, nothing sent and an empty store.
\<close>

definition world0 :: "int option \<Rightarrow> blob_store world" where
  "world0 threshold =
     \<lparr>self = LargePayloadCodec_init ''ns1'' ''http://store/'' threshold,
      heap = objects, next_addr = 8, requests_log = [], remote = []\<rparr>"

section \<open>Properties\<close>

subsection \<open>The loops\<close>

text \<open>The list built so far is only ever appended to.\<close>

lemma encode_loop_result:
  "encode_loop rt ps acc w =
     (case encode_loop rt ps [] w of
        (Inl e, w') \<Rightarrow> (Inl e, w')
      | (Inr rs, w') \<Rightarrow> (Inr (acc @ rs), w'))"
proof (induction ps arbitrary: acc w)
  case Nil
  show ?case by simp
next
  case (Cons a ps)
  show ?case
  proof (cases "int (ByteSize rt (heap w a)) > min_bytes (self w)")
    case False
    then show ?thesis
      using Cons.IH [of "acc @ [a]" w] Cons.IH [of "[a]" w]
      by (simp split: prod.splits sum.splits)
  next
    case True
    show ?thesis
    proof (cases "putLargePayload rt a w")
      case (Pair res w1)
      show ?thesis
      proof (cases res)
        case (Inl e)
        with True Pair show ?thesis by simp
      next
        case (Inr r)
        with True Pair show ?thesis
          using Cons.IH [of "acc @ [r]" w1] Cons.IH [of "[r]" w1]
          by (simp split: prod.splits sum.splits)
      qed
    qed
  qed
qed

lemma encode_Nil: "encode rt [] w = (Inr [], w)"
  by (simp add: encode_def)

lemma encode_Cons:
  "encode rt (a # ps) w =
     (if int (ByteSize rt (heap w a)) > min_bytes (self w)
      then (case putLargePayload rt a w of
              (Inl e, w1) \<Rightarrow> (Inl e, w1)
            | (Inr r, w1) \<Rightarrow>
                (case encode rt ps w1 of
                   (Inl e, w') \<Rightarrow> (Inl e, w')
                 | (Inr rs, w') \<Rightarrow> (Inr (r # rs), w')))
      else (case encode rt ps w of
              (Inl e, w') \<Rightarrow> (Inl e, w')
            | (Inr rs, w') \<Rightarrow> (Inr (a # rs), w')))"
  unfolding encode_def
  by (simp add: encode_loop_result [of rt ps "[_]"] split: prod.splits sum.splits)

lemma encode_single:
  "encode rt [a] w =
     (if int (ByteSize rt (heap w a)) > min_bytes (self w)
      then (case putLargePayload rt a w of
              (Inl e, w') \<Rightarrow> (Inl e, w')
            | (Inr r, w') \<Rightarrow> (Inr [r], w'))
      else (Inr [a], w))"
  by (simp add: encode_def split: prod.splits sum.splits)

lemma decode_loop_result:
  "decode_loop rt ps acc w =
     (case decode_loop rt ps [] w of
        (Inl e, w') \<Rightarrow> (Inl e, w')
      | (Inr rs, w') \<Rightarrow> (Inr (acc @ rs), w'))"
proof (induction ps arbitrary: acc w)
  case Nil
  show ?case by simp
next
  case (Cons a ps)
  show ?case
  proof (cases "map_of (metadata (heap w a)) REMOTE_CODEC_NAME \<noteq> None")
    case False
    then show ?thesis
      using Cons.IH [of "acc @ [a]" w] Cons.IH [of "[a]" w]
      by (simp split: prod.splits sum.splits)
  next
    case True
    show ?thesis
    proof (cases "getLargePayload rt a w")
      case (Pair res w1)
      show ?thesis
      proof (cases res)
        case (Inl e)
        with True Pair show ?thesis by simp
      next
        case (Inr r)
        with True Pair show ?thesis
          using Cons.IH [of "acc @ [r]" w1] Cons.IH [of "[r]" w1]
          by (simp split: prod.splits sum.splits)
      qed
    qed
  qed
qed

lemma decode_Nil: "decode rt [] w = (Inr [], w)"
  by (simp add: decode_def)

lemma decode_Cons:
  "decode rt (a # ps) w =
     (if has_marker (heap w a)
      then (case getLargePayload rt a w of
              (Inl e, w1) \<Rightarrow> (Inl e, w1)
            | (Inr r, w1) \<Rightarrow>
                (case decode rt ps w1 of
                   (Inl e, w') \<Rightarrow> (Inl e, w')
                 | (Inr rs, w') \<Rightarrow> (Inr (r # rs), w')))
      else (case decode rt ps w of
              (Inl e, w') \<Rightarrow> (Inl e, w')
            | (Inr rs, w') \<Rightarrow> (Inr (a # rs), w')))"
  unfolding decode_def has_marker_def
  by (simp add: decode_loop_result [of rt ps "[_]"] split: prod.splits sum.splits)

lemma decode_single:
  "decode rt [a] w =
     (if has_marker (heap w a)
      then (case getLargePayload rt a w of
              (Inl e, w') \<Rightarrow> (Inl e, w')
            | (Inr r, w') \<Rightarrow> (Inr [r], w'))
      else (Inr [a], w))"
  by (simp add: decode_def has_marker_def split: prod.splits sum.splits)

lemma encode_all_small:
  assumes "\<forall>a\<in>set ps. int (ByteSize rt (heap w a)) \<le> min_bytes (self w)"
  shows "encode rt ps w = (Inr ps, w)"
  using assms by (induction ps) (simp_all add: encode_Nil encode_Cons)

lemma decode_all_unmarked:
  assumes "\<forall>a\<in>set ps. \<not> has_marker (heap w a)"
  shows "decode rt ps w = (Inr ps, w)"
  using assms by (induction ps) (simp_all add: decode_Nil decode_Cons)

subsection \<open>What a call leaves as it was\<close>

lemma extends_refl: "extends w w"
  by (simp add: extends_def)

lemma extends_trans: "extends w w1 \<Longrightarrow> extends w1 w2 \<Longrightarrow> extends w w2"
  by (auto simp: extends_def)

lemma putLargePayload_extends:
  assumes "putLargePayload rt a w = (res, w')"
  shows "extends w w'"
  using assms unfolding putLargePayload_def request_def alloc_def extends_def
  by (auto split: sum.splits prod.splits if_splits)

lemma putLargePayload_fresh:
  assumes "putLargePayload rt a w = (Inr r, w')"
  shows "r = next_addr w \<and> next_addr w' = Suc (next_addr w)"
  using assms unfolding putLargePayload_def request_def alloc_def
  by (auto split: sum.splits prod.splits if_splits)

lemma getLargePayload_extends:
  assumes "getLargePayload rt a w = (res, w')"
  shows "extends w w'"
  using assms unfolding getLargePayload_def request_def alloc_def extends_def
  by (auto split: sum.splits prod.splits if_splits)

lemma getLargePayload_fresh:
  assumes "getLargePayload rt a w = (Inr r, w')"
  shows "r = next_addr w \<and> next_addr w' = Suc (next_addr w)"
  using assms unfolding getLargePayload_def request_def alloc_def
  by (auto split: sum.splits prod.splits if_splits)

lemma putLargePayload_log:
  assumes "putLargePayload rt a w = (res, w')"
  shows "requests_log w' = requests_log w
         \<or> (\<exists>q. req_method q = PUT \<and> requests_log w' = requests_log w @ [q])"
  using assms unfolding putLargePayload_def request_def alloc_def
  by (auto split: sum.splits prod.splits if_splits)

lemma putLargePayload_result:
  assumes "putLargePayload rt a w = (Inr r, w')"
  shows "\<exists>h k. to_payloads rt
                  \<lparr>rp_metadata = metadata (heap w a), rp_size = length (data (heap w a)),
                   rp_digest = ''sha256:'' @ h, rp_key = k\<rparr> = Inr (heap w' r)"
  using assms unfolding putLargePayload_def request_def alloc_def
  by (auto split: sum.splits prod.splits if_splits intro!: exI)

text \<open>
  With a converter that does not write the marker, \<open>decode\<close> takes what
  \<open>putLargePayload\<close> returned for application data.
\<close>

lemma putLargePayload_unmarked:
  assumes "\<forall>r p. to_payloads rt r = Inr p \<longrightarrow> \<not> has_marker p"
      and "putLargePayload rt a w = (Inr r, w')"
  shows "\<not> has_marker (heap w' r) \<and> decode rt [r] w' = (Inr [r], w')"
proof -
  from putLargePayload_result [OF assms(2)] assms(1)
  have "\<not> has_marker (heap w' r)" by blast
  then show ?thesis by (simp add: decode_single)
qed

text \<open>
  \<open>getLargePayload\<close> hands \<open>resp.raw\<close> to \<open>hashlib.sha256\<close>: where that raises, no
  payload is ever rehydrated.
\<close>

lemma getLargePayload_needs_stream_digest:
  assumes "\<forall>s. sha256_hexdigest rt (PyStream s) = Inl TypeError"
      and "getLargePayload rt a w = (res, w')"
  shows "\<exists>e. res = Inl e"
  using assms unfolding getLargePayload_def
  by (auto split: sum.splits prod.splits if_splits)

text \<open>The invariant of the two loops.\<close>

lemma encode_step_ok_mono:
  assumes "encode_step_ok rt w1 w' a r" "extends w w1" "a < next_addr w"
  shows "encode_step_ok rt w w' a r"
  using assms unfolding encode_step_ok_def extends_def
  by (auto split: if_splits) 

lemma encode_outputs:
  assumes "encode rt ps w = (res, w')" "\<forall>a\<in>set ps. a < next_addr w"
  shows "extends w w' \<and>
         (\<forall>rs. res = Inr rs \<longrightarrow>
            length rs = length ps \<and> (\<forall>i<length ps. encode_step_ok rt w w' (ps ! i) (rs ! i)))"
  using assms
proof (induction ps arbitrary: w res w')
  case Nil
  then show ?case by (auto simp: encode_Nil extends_refl)
next
  case (Cons a ps)
  show ?case
  proof (cases "int (ByteSize rt (heap w a)) > min_bytes (self w)")
    case False
    obtain res0 w0 where e0: "encode rt ps w = (res0, w0)" by (cases "encode rt ps w")
    from Cons.prems have valid: "\<forall>b\<in>set ps. b < next_addr w" by simp
    note ih = Cons.IH [OF e0 valid]
    from Cons.prems(1) False e0 have w': "w' = w0"
      and res: "res = (case res0 of Inl e \<Rightarrow> Inl e | Inr rs \<Rightarrow> Inr (a # rs))"
      by (auto simp: encode_Cons split: sum.splits)
    show ?thesis
    proof (intro conjI allI impI)
      show "extends w w'" using ih w' by simp
    next
      fix rs assume "res = Inr rs"
      with res obtain rs0 where rs0: "res0 = Inr rs0" "rs = a # rs0"
        by (auto split: sum.splits)
      with ih show "length rs = length (a # ps)" by simp
    next
      fix rs i assume "res = Inr rs" and i: "i < length (a # ps)"
      with res obtain rs0 where rs0: "res0 = Inr rs0" "rs = a # rs0"
        by (auto split: sum.splits)
      show "encode_step_ok rt w w' ((a # ps) ! i) (rs ! i)"
      proof (cases i)
        case 0
        with False rs0 show ?thesis by (simp add: encode_step_ok_def)
      next
        case (Suc j)
        with i ih rs0 w' show ?thesis by simp
      qed
    qed
  next
    case True
    obtain r1 w1 where p: "putLargePayload rt a w = (r1, w1)" by (cases "putLargePayload rt a w")
    note ext1 = putLargePayload_extends [OF p]
    show ?thesis
    proof (cases r1)
      case (Inl e)
      with Cons.prems(1) True p have "res = Inl e" "w' = w1"
        by (auto simp: encode_Cons)
      with ext1 show ?thesis by simp
    next
      case (Inr r)
      obtain res0 w0 where e0: "encode rt ps w1 = (res0, w0)" by (cases "encode rt ps w1")
      from Cons.prems(2) ext1 have valid: "\<forall>b\<in>set ps. b < next_addr w1"
        by (auto simp: extends_def)
      note ih = Cons.IH [OF e0 valid]
      from Cons.prems(1) True p Inr e0 have w': "w' = w0"
        and res: "res = (case res0 of Inl e \<Rightarrow> Inl e | Inr rs \<Rightarrow> Inr (r # rs))"
        by (auto simp: encode_Cons split: sum.splits)
      from p Inr have fresh: "r = next_addr w" "next_addr w1 = Suc (next_addr w)"
        using putLargePayload_fresh by blast+
      show ?thesis
      proof (intro conjI allI impI)
        show "extends w w'" using ih w' ext1 extends_trans by blast
      next
        fix rs assume "res = Inr rs"
        with res obtain rs0 where rs0: "res0 = Inr rs0" "rs = r # rs0"
          by (auto split: sum.splits)
        with ih show "length rs = length (a # ps)" by simp
      next
        fix rs i assume "res = Inr rs" and i: "i < length (a # ps)"
        with res obtain rs0 where rs0: "res0 = Inr rs0" "rs = r # rs0"
          by (auto split: sum.splits)
        show "encode_step_ok rt w w' ((a # ps) ! i) (rs ! i)"
        proof (cases i)
          case 0
          have later: "extends w1 w'" using ih w' by simp
          then have "next_addr w1 \<le> next_addr w'" by (simp add: extends_def)
          with 0 True rs0 fresh p Inr later show ?thesis
            using extends_refl [of w] by (auto simp: encode_step_ok_def)
        next
          case (Suc j)
          with i have j: "j < length ps" by simp
          with ih rs0 w' have "encode_step_ok rt w1 w' (ps ! j) (rs0 ! j)" by simp
          moreover have "ps ! j < next_addr w" using Cons.prems(2) j by simp
          ultimately show ?thesis
            using encode_step_ok_mono ext1 Suc rs0 by simp
        qed
      qed
    qed
  qed
qed

lemma decode_step_ok_mono:
  assumes "decode_step_ok rt w1 w' a r" "extends w w1" "a < next_addr w"
  shows "decode_step_ok rt w w' a r"
  using assms unfolding decode_step_ok_def extends_def
  by (auto split: if_splits) 

lemma decode_outputs:
  assumes "decode rt ps w = (res, w')" "\<forall>a\<in>set ps. a < next_addr w"
  shows "extends w w' \<and>
         (\<forall>rs. res = Inr rs \<longrightarrow>
            length rs = length ps \<and> (\<forall>i<length ps. decode_step_ok rt w w' (ps ! i) (rs ! i)))"
  using assms
proof (induction ps arbitrary: w res w')
  case Nil
  then show ?case by (auto simp: decode_Nil extends_refl)
next
  case (Cons a ps)
  show ?case
  proof (cases "has_marker (heap w a)")
    case False
    obtain res0 w0 where e0: "decode rt ps w = (res0, w0)" by (cases "decode rt ps w")
    from Cons.prems have valid: "\<forall>b\<in>set ps. b < next_addr w" by simp
    note ih = Cons.IH [OF e0 valid]
    from Cons.prems(1) False e0 have w': "w' = w0"
      and res: "res = (case res0 of Inl e \<Rightarrow> Inl e | Inr rs \<Rightarrow> Inr (a # rs))"
      by (auto simp: decode_Cons split: sum.splits)
    show ?thesis
    proof (intro conjI allI impI)
      show "extends w w'" using ih w' by simp
    next
      fix rs assume "res = Inr rs"
      with res obtain rs0 where rs0: "res0 = Inr rs0" "rs = a # rs0"
        by (auto split: sum.splits)
      with ih show "length rs = length (a # ps)" by simp
    next
      fix rs i assume "res = Inr rs" and i: "i < length (a # ps)"
      with res obtain rs0 where rs0: "res0 = Inr rs0" "rs = a # rs0"
        by (auto split: sum.splits)
      show "decode_step_ok rt w w' ((a # ps) ! i) (rs ! i)"
      proof (cases i)
        case 0
        with False rs0 show ?thesis by (simp add: decode_step_ok_def)
      next
        case (Suc j)
        with i ih rs0 w' show ?thesis by simp
      qed
    qed
  next
    case True
    obtain r1 w1 where p: "getLargePayload rt a w = (r1, w1)" by (cases "getLargePayload rt a w")
    note ext1 = getLargePayload_extends [OF p]
    show ?thesis
    proof (cases r1)
      case (Inl e)
      with Cons.prems(1) True p have "res = Inl e" "w' = w1"
        by (auto simp: decode_Cons)
      with ext1 show ?thesis by simp
    next
      case (Inr r)
      obtain res0 w0 where e0: "decode rt ps w1 = (res0, w0)" by (cases "decode rt ps w1")
      from Cons.prems(2) ext1 have valid: "\<forall>b\<in>set ps. b < next_addr w1"
        by (auto simp: extends_def)
      note ih = Cons.IH [OF e0 valid]
      from Cons.prems(1) True p Inr e0 have w': "w' = w0"
        and res: "res = (case res0 of Inl e \<Rightarrow> Inl e | Inr rs \<Rightarrow> Inr (r # rs))"
        by (auto simp: decode_Cons split: sum.splits)
      from p Inr have fresh: "r = next_addr w" "next_addr w1 = Suc (next_addr w)"
        using getLargePayload_fresh by blast+
      show ?thesis
      proof (intro conjI allI impI)
        show "extends w w'" using ih w' ext1 extends_trans by blast
      next
        fix rs assume "res = Inr rs"
        with res obtain rs0 where rs0: "res0 = Inr rs0" "rs = r # rs0"
          by (auto split: sum.splits)
        with ih show "length rs = length (a # ps)" by simp
      next
        fix rs i assume "res = Inr rs" and i: "i < length (a # ps)"
        with res obtain rs0 where rs0: "res0 = Inr rs0" "rs = r # rs0"
          by (auto split: sum.splits)
        show "decode_step_ok rt w w' ((a # ps) ! i) (rs ! i)"
        proof (cases i)
          case 0
          have later: "extends w1 w'" using ih w' by simp
          then have "next_addr w1 \<le> next_addr w'" by (simp add: extends_def)
          with 0 True rs0 fresh p Inr later show ?thesis
            using extends_refl [of w] by (auto simp: decode_step_ok_def)
        next
          case (Suc j)
          with i have j: "j < length ps" by simp
          with ih rs0 w' have "decode_step_ok rt w1 w' (ps ! j) (rs0 ! j)" by simp
          moreover have "ps ! j < next_addr w" using Cons.prems(2) j by simp
          ultimately show ?thesis
            using decode_step_ok_mono ext1 Suc rs0 by simp
        qed
      qed
    qed
  qed
qed

text \<open>An input comes back as itself exactly when it was not offloaded (rehydrated).\<close>

lemma encode_passes_iff:
  assumes "\<forall>a\<in>set ps. a < next_addr w"
      and "encode rt ps w = (Inr rs, w')"
      and "i < length ps"
  shows "(rs ! i = ps ! i) = (int (ByteSize rt (heap w (ps ! i))) \<le> min_bytes (self w))"
proof -
  from encode_outputs [OF assms(2,1)] assms(3)
  have "encode_step_ok rt w w' (ps ! i) (rs ! i)" by simp
  moreover from assms(1,3) have "ps ! i < next_addr w" by simp
  ultimately show ?thesis by (auto simp: encode_step_ok_def split: if_splits)
qed

lemma decode_passes_iff:
  assumes "\<forall>a\<in>set ps. a < next_addr w"
      and "decode rt ps w = (Inr rs, w')"
      and "i < length ps"
  shows "(rs ! i = ps ! i) = (\<not> has_marker (heap w (ps ! i)))"
proof -
  from decode_outputs [OF assms(2,1)] assms(3)
  have "decode_step_ok rt w w' (ps ! i) (rs ! i)" by simp
  moreover from assms(1,3) have "ps ! i < next_addr w" by simp
  ultimately show ?thesis by (auto simp: decode_step_ok_def split: if_splits)
qed

text \<open>
  A batch that returns keeps count and order: position \<open>i\<close> of the result is input
  \<open>i\<close> itself, or the object that \<open>putLargePayload\<close> (\<open>getLargePayload\<close>) made
  for input \<open>i\<close>, with the content it was made with.
\<close>

lemma batch_outputs_in_order:
  assumes "\<forall>a\<in>set ps. a < next_addr w"
  shows "(\<forall>rs w'. encode rt ps w = (Inr rs, w') \<longrightarrow>
            length rs = length ps
            \<and> (\<forall>i<length ps.
                  if int (ByteSize rt (heap w (ps ! i))) > min_bytes (self w)
                  then \<exists>w1 w2. extends w w1
                         \<and> putLargePayload rt (ps ! i) w1 = (Inr (rs ! i), w2)
                         \<and> heap w' (rs ! i) = heap w2 (rs ! i)
                  else rs ! i = ps ! i))
         \<and> (\<forall>rs w'. decode rt ps w = (Inr rs, w') \<longrightarrow>
            length rs = length ps
            \<and> (\<forall>i<length ps.
                  if has_marker (heap w (ps ! i))
                  then \<exists>w1 w2. extends w w1
                         \<and> getLargePayload rt (ps ! i) w1 = (Inr (rs ! i), w2)
                         \<and> heap w' (rs ! i) = heap w2 (rs ! i)
                  else rs ! i = ps ! i))"
proof (intro conjI allI impI)
  fix rs w' assume e: "encode rt ps w = (Inr rs, w')"
  from encode_outputs [OF e assms] show "length rs = length ps" by simp
next
  fix rs w' i assume e: "encode rt ps w = (Inr rs, w')" and i: "i < length ps"
  from encode_outputs [OF e assms] i
  have ok: "encode_step_ok rt w w' (ps ! i) (rs ! i)" by simp
  show "if int (ByteSize rt (heap w (ps ! i))) > min_bytes (self w)
        then \<exists>w1 w2. extends w w1
               \<and> putLargePayload rt (ps ! i) w1 = (Inr (rs ! i), w2)
               \<and> heap w' (rs ! i) = heap w2 (rs ! i)
        else rs ! i = ps ! i"
  proof (cases "int (ByteSize rt (heap w (ps ! i))) > min_bytes (self w)")
    case False
    with ok show ?thesis by (simp add: encode_step_ok_def)
  next
    case True
    with ok obtain w1 w2 where
      a: "extends w w1" and b: "putLargePayload rt (ps ! i) w1 = (Inr (rs ! i), w2)"
      and c: "extends w2 w'"
      by (auto simp: encode_step_ok_def)
    from putLargePayload_fresh [OF b] have "rs ! i < next_addr w2" by simp
    with c have "heap w' (rs ! i) = heap w2 (rs ! i)" by (simp add: extends_def)
    with True a b show ?thesis by auto
  qed
next
  fix rs w' assume d: "decode rt ps w = (Inr rs, w')"
  from decode_outputs [OF d assms] show "length rs = length ps" by simp
next
  fix rs w' i assume d: "decode rt ps w = (Inr rs, w')" and i: "i < length ps"
  from decode_outputs [OF d assms] i
  have ok: "decode_step_ok rt w w' (ps ! i) (rs ! i)" by simp
  show "if has_marker (heap w (ps ! i))
        then \<exists>w1 w2. extends w w1
               \<and> getLargePayload rt (ps ! i) w1 = (Inr (rs ! i), w2)
               \<and> heap w' (rs ! i) = heap w2 (rs ! i)
        else rs ! i = ps ! i"
  proof (cases "has_marker (heap w (ps ! i))")
    case False
    with ok show ?thesis by (simp add: decode_step_ok_def)
  next
    case True
    with ok obtain w1 w2 where
      a: "extends w w1" and b: "getLargePayload rt (ps ! i) w1 = (Inr (rs ! i), w2)"
      and c: "extends w2 w'"
      by (auto simp: decode_step_ok_def)
    from getLargePayload_fresh [OF b] have "rs ! i < next_addr w2" by simp
    with c have "heap w' (rs ! i) = heap w2 (rs ! i)" by (simp add: extends_def)
    with True a b show ?thesis by auto
  qed
qed

text \<open>
  Where \<open>json.dumps\<close> refuses the metadata map, \<open>putLargePayload\<close> raises before
  anything is sent; where \<open>base64.b64decode\<close> refuses an integer, so does
  \<open>getLargePayload\<close>.
\<close>

lemma putLargePayload_raises:
  assumes "\<forall>m. json_dumps rt m = Inl TypeError"
      and "\<forall>b. \<exists>h. sha256_hexdigest rt (PyBytes b) = Inr h"
  shows "putLargePayload rt a w = (Inl TypeError, w)"
proof -
  from assms(2) obtain h where "sha256_hexdigest rt (PyBytes (data (heap w a))) = Inr h"
    by blast
  with assms(1) show ?thesis
    by (simp add: putLargePayload_def temporal_metadata_header_def)
qed

lemma getLargePayload_raises:
  assumes "\<forall>n. b64decode rt n = Inl TypeError"
  shows "\<exists>e. getLargePayload rt a w = (Inl e, w)"
  using assms by (simp add: getLargePayload_def split: sum.splits)

subsection \<open>Running the model\<close>

lemmas model_defs =
  encode_def decode_def round_trip_def has_marker_def putLargePayload_def getLargePayload_def
  temporal_metadata_header_def request_def alloc_def raise_for_status_def
  LargePayloadCodec_init_def MIN_LARGE_PAYLOAD_BYTES_def REMOTE_CODEC_NAME_def
  bytes_decode_def in_range_def b64_char_def b64_alphabet_def

lemmas double_defs =
  cpython_def lenient_def proto_ByteSize_def delimited_len_def varint_len.simps hex_digits_def
  decimal.simps netstring_def read_netstring_def wire_def unwire_def key_json_def
  read_key_json_def starts_with_def ends_with_def blob_store_serve_def
  converter_to_payloads_def converter_from_payloads_def
  world0_def objects_def plain_def big_def light_def marked_def big_record_def reference_def

lemma cpython_converter: "\<forall>r p. to_payloads cpython r = Inr p \<longrightarrow> \<not> has_marker p"
  by (auto simp: cpython_def converter_to_payloads_def has_marker_def REMOTE_CODEC_NAME_def)

lemma lenient_converter: "\<forall>r p. to_payloads lenient r = Inr p \<longrightarrow> \<not> has_marker p"
  by (auto simp: lenient_def cpython_def converter_to_payloads_def has_marker_def
      REMOTE_CODEC_NAME_def)

lemma cpython_json_dumps_all: "\<forall>m. json_dumps cpython m = Inl TypeError"
  by (simp add: cpython_def)

lemma cpython_sha256_bytes: "\<forall>b. \<exists>h. sha256_hexdigest cpython (PyBytes b) = Inr h"
  by (simp add: cpython_def)

lemma cpython_b64decode: "\<forall>n. b64decode cpython n = Inl TypeError"
  by (simp add: cpython_def)

lemma cpython_json_dumps: "\<forall>m. m \<noteq> [] \<longrightarrow> json_dumps cpython m = Inl TypeError"
  by (simp add: cpython_def)

lemma cpython_from_payloads_reference:
  "from_payloads cpython (heap (world0 None) 5) = Inr big_record"
  by (simp add: model_defs double_defs)

lemma cpython_get_empty_marker:
  "getLargePayload cpython 6 (world0 None) = (Inl TypeError, world0 None)"
  by (simp add: model_defs double_defs)

lemma cpython_round_trip_big:
  "round_trip cpython [2] (world0 (Some 10)) = (Inl TypeError, world0 (Some 10))"
  by (simp add: model_defs double_defs)

lemma cpython_decode_marked_batch:
  "decode cpython [0, 5, 3] (world0 None) = (Inl TypeError, world0 None)"
  by (simp add: model_defs double_defs)

lemma cpython_decode_batch:
  "decode cpython [7, 0, 3] (world0 None) = (Inr [7, 0, 3], world0 None)"
  by (simp add: model_defs double_defs)

lemma lenient_put_big:
  "putLargePayload lenient 2 (world0 (Some 10)) =
     (Inr 8,
      (world0 (Some 10))
       \<lparr>heap := (heap (world0 (Some 10)))(8 := reference None),
        next_addr := 9,
        requests_log :=
          [\<lparr>req_method = PUT, req_url = ''http://store/v2/blobs/put'',
            req_params = ParamDict [(''digest'', ''sha256:4141414141414141414141414141414141414141''),
                                    (''namespace'', ''ns1'')],
            req_headers = [(''Content-Type'', ''application/octet-stream''),
                           (''X-Temporal-Metadata'', ''eyJlbmNvZGluZyI6ICJiaW5hcnkvcGxhaW4ifQ=='')],
            req_data = ''AAAAAAAAAAAAAAAAAAAA''\<rparr>],
        remote := [(''/blobs/ns1/sha256:4141414141414141414141414141414141414141'',
                    ''AAAAAAAAAAAAAAAAAAAA'')]\<rparr>)"
  by (simp add: model_defs double_defs)

lemma lenient_put_light:
  "fst (putLargePayload lenient 3 (world0 (Some 10))) = Inr 8"
  by (simp add: model_defs double_defs)

lemma lenient_round_trip_big:
  "round_trip lenient [2] (world0 (Some 10)) =
     (Inr [8], snd (putLargePayload lenient 2 (world0 (Some 10))))"
  by (simp add: round_trip_def encode_single decode_single lenient_put_big)
     (simp add: model_defs double_defs)

lemma lenient_get_reference:
  "getLargePayload lenient 5 (world0 None) =
     (Inl (HTTPError 404),
      (world0 None)
       \<lparr>requests_log :=
          [\<lparr>req_method = GET, req_url = ''http://store/v2/blobs/put'',
            req_params = ParamSet [''key'', ''/blobs/ns1/sha256:4141414141414141414141414141414141414141''],
            req_headers = [(''Content-Type'', ''application/octet-stream''),
                           (''X-Payload-Expected-Content-Length'', ''20'')],
            req_data = []\<rparr>]\<rparr>)"
  by (simp add: model_defs double_defs)

lemma lenient_encode_batch:
  "fst (encode lenient [0, 2, 3] (world0 (Some 10))) = Inr [0, 8, 9]"
  by (simp add: model_defs double_defs)

section \<open>The claims\<close>

subsection \<open>The threshold\<close>

text \<open>
  Claim C5. \<open>encode\<close> offloads a payload exactly when the size of the whole serialized
  message, \<open>payload.ByteSize()\<close>, is above \<open>min_bytes\<close>: the length of \<open>payload.data\<close>
  alone plays no part. \<open>min_bytes\<close> is 128000 when the constructor is not given one.
  For one payload \<open>encode\<close> is \<open>putLargePayload\<close> above the threshold and the payload
  itself otherwise; in a batch that \<open>encode\<close> returns, an input comes back as itself
  exactly when its \<open>ByteSize()\<close> is at most \<open>min_bytes\<close>.
\<close>

theorem encode_offloads_on_ByteSize:
  "min_bytes (LargePayloadCodec_init ns u None) = 128000
   \<and> min_bytes (LargePayloadCodec_init ns u (Some n)) = n
   \<and> encode rt [a] w =
       (if int (ByteSize rt (heap w a)) > min_bytes (self w)
        then (case putLargePayload rt a w of
                (Inl e, w') \<Rightarrow> (Inl e, w')
              | (Inr r, w') \<Rightarrow> (Inr [r], w'))
        else (Inr [a], w))
   \<and> ((\<forall>a\<in>set ps. a < next_addr w) \<longrightarrow>
        (\<forall>rs w'. encode rt ps w = (Inr rs, w') \<longrightarrow>
           (\<forall>i<length ps.
              (rs ! i = ps ! i) = (int (ByteSize rt (heap w (ps ! i))) \<le> min_bytes (self w)))))"
  using encode_passes_iff [of ps w rt]
  by (simp add: encode_single LargePayloadCodec_init_def MIN_LARGE_PAYLOAD_BYTES_def)

text \<open>
  \<open>light\<close> has five bytes of data and 33 when serialized: with a threshold of ten it is
  offloaded, alone and as the third of a batch; with the default threshold it is
  returned as it is.
\<close>

theorem encode_offloads_on_ByteSize_witness:
  "min_bytes (self (world0 None)) = 128000
   \<and> length (data (heap (world0 (Some 10)) 3)) = 5
   \<and> ByteSize lenient (heap (world0 (Some 10)) 3) = 33
   \<and> fst (encode lenient [3] (world0 (Some 10))) = Inr [8]
   \<and> encode lenient [3] (world0 None) = (Inr [3], world0 None)
   \<and> fst (encode lenient [0, 2, 3] (world0 (Some 10))) = Inr [0, 8, 9]
   \<and> ([0, 8, 9] ! 2 = [0, 2, 3 :: nat] ! 2)
       = (int (ByteSize lenient (heap (world0 (Some 10)) ([0, 2, 3] ! 2)))
            \<le> min_bytes (self (world0 (Some 10))))"
proof -
  have size: "ByteSize lenient (heap (world0 (Some 10)) 3) = 33"
    "ByteSize lenient (heap (world0 None) 3) = 33"
    "length (data (heap (world0 (Some 10)) 3)) = 5"
    by (simp_all add: model_defs double_defs)
  have conf: "self (world0 None) = LargePayloadCodec_init ''ns1'' ''http://store/'' None"
    "self (world0 (Some 10)) = LargePayloadCodec_init ''ns1'' ''http://store/'' (Some 10)"
    by (simp_all add: world0_def)
  have valid: "\<forall>a\<in>set [0, 2, 3]. a < next_addr (world0 (Some 10))"
    by (simp add: world0_def)
  have run: "encode lenient [0, 2, 3] (world0 (Some 10)) =
      (Inr [0, 8, 9], snd (encode lenient [0, 2, 3] (world0 (Some 10))))"
    using lenient_encode_batch by (metis prod.collapse)
  note eq = encode_offloads_on_ByteSize [of "''ns1''" "''http://store/''" 10 lenient 3]
  from eq [of "world0 (Some 10)" "[0, 2, 3]"] valid run
  have pos: "([0, 8, 9] ! 2 = [0, 2, 3 :: nat] ! 2)
       = (int (ByteSize lenient (heap (world0 (Some 10)) ([0, 2, 3] ! 2)))
            \<le> min_bytes (self (world0 (Some 10))))"
    by (metis (no_types, lifting) length_Cons lessI less_SucI list.size(3) numeral_2_eq_2)
  from eq [of "world0 (Some 10)" "[]"] eq [of "world0 None" "[]"] size conf lenient_put_light
  have "min_bytes (self (world0 None)) = 128000
   \<and> fst (encode lenient [3] (world0 (Some 10))) = Inr [8]
   \<and> encode lenient [3] (world0 None) = (Inr [3], world0 None)"
    by (auto split: prod.splits sum.splits)
  with size pos lenient_encode_batch show ?thesis by blast
qed

subsection \<open>Payloads that pass through\<close>

text \<open>
  Claim C4, amended. For every payload whose serialized size \<open>ByteSize()\<close> is at most
  the threshold and whose metadata does not have the marker key, \<open>encode\<close> returns the
  payload itself, \<open>decode\<close> returns it itself, so \<open>decode(encode([P]))\<close> is \<open>[P]\<close>, and
  the state is the one before: nothing is sent and nothing is allocated.
\<close>

theorem small_unmarked_round_trip:
  assumes "int (ByteSize rt (heap w a)) \<le> min_bytes (self w)"
      and "\<not> has_marker (heap w a)"
  shows "encode rt [a] w = (Inr [a], w) \<and> decode rt [a] w = (Inr [a], w)
         \<and> round_trip rt [a] w = (Inr [a], w)"
  using assms by (simp add: round_trip_def encode_single decode_single)

theorem small_unmarked_round_trip_witness:
  "int (ByteSize cpython (heap (world0 None) 3)) \<le> min_bytes (self (world0 None))
   \<and> \<not> has_marker (heap (world0 None) 3)
   \<and> round_trip cpython [3] (world0 None) = (Inr [3], world0 None)"
proof -
  have s: "int (ByteSize cpython (heap (world0 None) 3)) \<le> min_bytes (self (world0 None))"
    and m: "\<not> has_marker (heap (world0 None) 3)"
    by (simp_all add: model_defs double_defs)
  from small_unmarked_round_trip [OF s m] s m show ?thesis by simp
qed

text \<open>
  Claim C4 as stated, with the size of the payload's bytes, fails twice. \<open>light\<close> has five
  bytes of data against a threshold of ten, but 33 bytes when serialized: \<open>encode\<close> takes
  it to \<open>putLargePayload\<close>, which raises in \<open>cpython\<close> and uploads it in \<open>lenient\<close>.
  \<open>marked\<close> is below the default threshold in both measures and carries the marker key:
  \<open>encode\<close> returns it and \<open>decode\<close> takes it for a reference.
\<close>

theorem small_data_round_trip_counterexample:
  "int (length (data (heap (world0 (Some 10)) 3))) \<le> min_bytes (self (world0 (Some 10)))
   \<and> round_trip cpython [3] (world0 (Some 10)) = (Inl TypeError, world0 (Some 10))
   \<and> fst (round_trip lenient [3] (world0 (Some 10))) = Inr [8]
   \<and> length (requests_log (snd (round_trip lenient [3] (world0 (Some 10))))) = 1
   \<and> int (length (data (heap (world0 None) 4))) \<le> min_bytes (self (world0 None))
   \<and> int (ByteSize cpython (heap (world0 None) 4)) \<le> min_bytes (self (world0 None))
   \<and> round_trip cpython [4] (world0 None) \<noteq> (Inr [4], world0 None)"
  by (simp add: model_defs double_defs)

subsection \<open>Routing in decode\<close>

text \<open>
  Claim C9. \<open>decode\<close> sends a payload to \<open>getLargePayload\<close> exactly when its metadata
  has the key \<open>temporal.io/remote-codec\<close>, whatever the value under the key, the empty
  byte string included; a payload without the key is returned as it is, whatever its
  bytes are. In a batch that \<open>decode\<close> returns, an input comes back as itself exactly
  when it does not have the key.
\<close>

theorem decode_routes_on_marker_key:
  "(map_of (metadata (heap w a)) REMOTE_CODEC_NAME = None
      \<longrightarrow> decode rt [a] w = (Inr [a], w))
   \<and> (\<forall>v. map_of (metadata (heap w a)) REMOTE_CODEC_NAME = Some v
      \<longrightarrow> decode rt [a] w =
            (case getLargePayload rt a w of
               (Inl e, w') \<Rightarrow> (Inl e, w')
             | (Inr r, w') \<Rightarrow> (Inr [r], w')))
   \<and> ((\<forall>a\<in>set ps. a < next_addr w) \<longrightarrow>
        (\<forall>rs w'. decode rt ps w = (Inr rs, w') \<longrightarrow>
           (\<forall>i<length ps.
              (rs ! i = ps ! i) = (map_of (metadata (heap w (ps ! i))) REMOTE_CODEC_NAME = None))))"
  using decode_passes_iff [of ps w rt]
  by (simp add: decode_single has_marker_def)

text \<open>
  Object 7 holds a well-formed reference record and no marker: it is returned as it is.
  Object 6 is the same with the marker key and an empty value: it is rehydrated (and
  \<open>cpython\<close> raises in \<open>getLargePayload\<close>).
\<close>

theorem decode_routes_on_marker_key_witness:
  "map_of (metadata (heap (world0 None) 7)) REMOTE_CODEC_NAME = None
   \<and> from_payloads cpython (heap (world0 None) 7) = Inr big_record
   \<and> decode cpython [7] (world0 None) = (Inr [7], world0 None)
   \<and> map_of (metadata (heap (world0 None) 6)) REMOTE_CODEC_NAME = Some []
   \<and> decode cpython [6] (world0 None) = (Inl TypeError, world0 None)"
proof -
  have a: "map_of (metadata (heap (world0 None) 7)) REMOTE_CODEC_NAME = None"
    and b: "map_of (metadata (heap (world0 None) 6)) REMOTE_CODEC_NAME = Some []"
    and c: "from_payloads cpython (heap (world0 None) 7) = Inr big_record"
    by (simp_all add: model_defs double_defs)
  from decode_routes_on_marker_key [of "world0 None" 7 cpython "[]"] a
  have one: "decode cpython [7] (world0 None) = (Inr [7], world0 None)" by blast
  from decode_routes_on_marker_key [of "world0 None" 6 cpython "[]"] b
  have "decode cpython [6] (world0 None) =
          (case getLargePayload cpython 6 (world0 None) of
             (Inl e, w') \<Rightarrow> (Inl e, w')
           | (Inr r, w') \<Rightarrow> (Inr [r], w'))"
    by blast
  then have two: "decode cpython [6] (world0 None) = (Inl TypeError, world0 None)"
    by (simp add: cpython_get_empty_marker)
  from a b c one two show ?thesis by blast
qed

subsection \<open>Batches\<close>

text \<open>
  Claim C6 fails on the code. The claim: for every batch of \<open>N\<close> payloads of mixed
  sizes \<open>encode\<close> returns \<open>N\<close> payloads and \<open>decode\<close> returns \<open>N\<close> payloads, in the
  order of the inputs. The code: in every runtime whose \<open>json.dumps\<close> raises
  \<open>TypeError\<close> on the metadata map and whose \<open>base64.b64decode\<close> raises \<open>TypeError\<close>
  on an integer, as CPython's do, a batch with a payload above the threshold makes
  \<open>encode\<close> raise \<open>TypeError\<close>, and a batch with a payload that has the marker makes
  \<open>decode\<close> raise, both before anything is sent. No list is returned. Only a batch
  with nothing to offload (rehydrate) comes back, as it is.
\<close>

theorem batch_with_offload_raises:
  assumes "\<forall>m. json_dumps rt m = Inl TypeError"
      and "\<forall>b. \<exists>h. sha256_hexdigest rt (PyBytes b) = Inr h"
      and "\<forall>n. b64decode rt n = Inl TypeError"
  shows "((\<exists>a\<in>set ps. int (ByteSize rt (heap w a)) > min_bytes (self w))
            \<longrightarrow> encode rt ps w = (Inl TypeError, w))
         \<and> ((\<exists>a\<in>set ps. has_marker (heap w a))
            \<longrightarrow> (\<exists>e. decode rt ps w = (Inl e, w)))"
proof (intro conjI impI)
  assume "\<exists>a\<in>set ps. int (ByteSize rt (heap w a)) > min_bytes (self w)"
  then show "encode rt ps w = (Inl TypeError, w)"
  proof (induction ps)
    case Nil
    then show ?case by simp
  next
    case (Cons a ps)
    show ?case
    proof (cases "int (ByteSize rt (heap w a)) > min_bytes (self w)")
      case True
      then show ?thesis
        by (simp add: encode_Cons putLargePayload_raises [OF assms(1,2)])
    next
      case False
      with Cons.prems have "\<exists>b\<in>set ps. int (ByteSize rt (heap w b)) > min_bytes (self w)"
        by auto
      with Cons.IH False show ?thesis by (simp add: encode_Cons)
    qed
  qed
next
  assume "\<exists>a\<in>set ps. has_marker (heap w a)"
  then show "\<exists>e. decode rt ps w = (Inl e, w)"
  proof (induction ps)
    case Nil
    then show ?case by simp
  next
    case (Cons a ps)
    show ?case
    proof (cases "has_marker (heap w a)")
      case True
      from getLargePayload_raises [OF assms(3), of a w] obtain e where
        "getLargePayload rt a w = (Inl e, w)" by blast
      with True show ?thesis by (simp add: decode_Cons)
    next
      case False
      with Cons.prems have "\<exists>b\<in>set ps. has_marker (heap w b)" by auto
      with Cons.IH obtain e where "decode rt ps w = (Inl e, w)" by blast
      with False show ?thesis by (simp add: decode_Cons)
    qed
  qed
qed

text \<open>
  With a threshold of ten the batch of \<open>plain\<close>, \<open>big\<close> and \<open>light\<close> makes \<open>encode\<close>
  raise at \<open>big\<close>; with the default threshold the batch of \<open>plain\<close>, the reference to
  \<open>big\<close> and \<open>light\<close> makes \<open>decode\<close> raise at the reference.
\<close>

theorem batch_with_offload_raises_witness:
  "int (ByteSize cpython (heap (world0 (Some 10)) 2)) > min_bytes (self (world0 (Some 10)))
   \<and> encode cpython [0, 2, 3] (world0 (Some 10)) = (Inl TypeError, world0 (Some 10))
   \<and> has_marker (heap (world0 None) 5)
   \<and> (\<exists>e. decode cpython [0, 5, 3] (world0 None) = (Inl e, world0 None))
   \<and> decode cpython [0, 5, 3] (world0 None) = (Inl TypeError, world0 None)"
proof -
  have big: "int (ByteSize cpython (heap (world0 (Some 10)) 2)) > min_bytes (self (world0 (Some 10)))"
    and marked: "has_marker (heap (world0 None) 5)"
    by (simp_all add: model_defs double_defs)
  note raises = batch_with_offload_raises
    [OF cpython_json_dumps_all cpython_sha256_bytes cpython_b64decode]
  from big have "\<exists>a\<in>set [0, 2, 3]. int (ByteSize cpython (heap (world0 (Some 10)) a))
      > min_bytes (self (world0 (Some 10)))"
    by simp
  with raises [of "[0, 2, 3]" "world0 (Some 10)"]
  have enc: "encode cpython [0, 2, 3] (world0 (Some 10)) = (Inl TypeError, world0 (Some 10))"
    by blast
  from marked have "\<exists>a\<in>set [0, 5, 3]. has_marker (heap (world0 None) a)" by simp
  with raises [of "[0, 5, 3]" "world0 None"]
  have dec: "\<exists>e. decode cpython [0, 5, 3] (world0 None) = (Inl e, world0 None)"
    by blast
  from big marked enc dec cpython_decode_marked_batch show ?thesis by blast
qed

text \<open>
  Claim C10. \<open>encode\<close> and \<open>decode\<close> leave the codec object (namespace, url,
  min_bytes) and every payload object that existed before the call as they were,
  whether they return or raise. A payload that is not offloaded (rehydrated) comes back
  as the very object that went in; an offloaded (rehydrated) one comes back as an object
  allocated during the call, which is none of the inputs.
\<close>

theorem codec_and_inputs_unchanged:
  assumes "\<forall>a\<in>set ps. a < next_addr w"
  shows "(\<forall>res w'. encode rt ps w = (res, w') \<longrightarrow>
            self w' = self w
            \<and> (\<forall>a<next_addr w. heap w' a = heap w a)
            \<and> (\<forall>rs. res = Inr rs \<longrightarrow>
                 (\<forall>i<length ps.
                    if int (ByteSize rt (heap w (ps ! i))) > min_bytes (self w)
                    then next_addr w \<le> rs ! i \<and> rs ! i < next_addr w' \<and> rs ! i \<notin> set ps
                    else rs ! i = ps ! i)))
         \<and> (\<forall>res w'. decode rt ps w = (res, w') \<longrightarrow>
            self w' = self w
            \<and> (\<forall>a<next_addr w. heap w' a = heap w a)
            \<and> (\<forall>rs. res = Inr rs \<longrightarrow>
                 (\<forall>i<length ps.
                    if has_marker (heap w (ps ! i))
                    then next_addr w \<le> rs ! i \<and> rs ! i < next_addr w' \<and> rs ! i \<notin> set ps
                    else rs ! i = ps ! i)))"
proof (intro conjI allI impI)
  fix res w' assume e: "encode rt ps w = (res, w')"
  from encode_outputs [OF e assms] show "self w' = self w" by (simp add: extends_def)
next
  fix res w' a assume e: "encode rt ps w = (res, w')" and "a < next_addr w"
  with encode_outputs [OF e assms] show "heap w' a = heap w a" by (simp add: extends_def)
next
  fix res w' rs i
  assume e: "encode rt ps w = (res, w')" and r: "res = Inr rs" and i: "i < length ps"
  from encode_outputs [OF e assms] r i
  have "encode_step_ok rt w w' (ps ! i) (rs ! i)" by simp
  then show "if int (ByteSize rt (heap w (ps ! i))) > min_bytes (self w)
             then next_addr w \<le> rs ! i \<and> rs ! i < next_addr w' \<and> rs ! i \<notin> set ps
             else rs ! i = ps ! i"
    using assms by (auto simp: encode_step_ok_def)
next
  fix res w' assume d: "decode rt ps w = (res, w')"
  from decode_outputs [OF d assms] show "self w' = self w" by (simp add: extends_def)
next
  fix res w' a assume d: "decode rt ps w = (res, w')" and "a < next_addr w"
  with decode_outputs [OF d assms] show "heap w' a = heap w a" by (simp add: extends_def)
next
  fix res w' rs i
  assume d: "decode rt ps w = (res, w')" and r: "res = Inr rs" and i: "i < length ps"
  from decode_outputs [OF d assms] r i
  have "decode_step_ok rt w w' (ps ! i) (rs ! i)" by simp
  then show "if has_marker (heap w (ps ! i))
             then next_addr w \<le> rs ! i \<and> rs ! i < next_addr w' \<and> rs ! i \<notin> set ps
             else rs ! i = ps ! i"
    using assms by (auto simp: decode_step_ok_def)
qed

theorem codec_and_inputs_unchanged_witness:
  "fst (encode lenient [0, 2, 3] (world0 (Some 10))) = Inr [0, 8, 9]
   \<and> self (snd (encode lenient [0, 2, 3] (world0 (Some 10)))) = self (world0 (Some 10))
   \<and> heap (snd (encode lenient [0, 2, 3] (world0 (Some 10)))) 0 = plain
   \<and> heap (snd (encode lenient [0, 2, 3] (world0 (Some 10)))) 2 = big
   \<and> heap (snd (encode lenient [0, 2, 3] (world0 (Some 10)))) 3 = light
   \<and> next_addr (world0 (Some 10)) = 8
   \<and> self (snd (decode cpython [7, 0, 3] (world0 None))) = self (world0 None)"
proof -
  have valid: "\<forall>a\<in>set [0, 2, 3]. a < next_addr (world0 (Some 10))"
    "\<forall>a\<in>set [7, 0, 3]. a < next_addr (world0 None)"
    by (simp_all add: world0_def)
  have run: "encode lenient [0, 2, 3] (world0 (Some 10)) =
      (fst (encode lenient [0, 2, 3] (world0 (Some 10))),
       snd (encode lenient [0, 2, 3] (world0 (Some 10))))"
    "decode cpython [7, 0, 3] (world0 None) =
      (fst (decode cpython [7, 0, 3] (world0 None)), snd (decode cpython [7, 0, 3] (world0 None)))"
    by simp_all
  from codec_and_inputs_unchanged [OF valid(1), of lenient] run(1)
  have enc: "self (snd (encode lenient [0, 2, 3] (world0 (Some 10)))) = self (world0 (Some 10))"
    "\<forall>a<next_addr (world0 (Some 10)).
        heap (snd (encode lenient [0, 2, 3] (world0 (Some 10)))) a = heap (world0 (Some 10)) a"
    by blast+
  from codec_and_inputs_unchanged [OF valid(2), of cpython] run(2)
  have dec: "self (snd (decode cpython [7, 0, 3] (world0 None))) = self (world0 None)"
    by blast
  have n: "next_addr (world0 (Some 10)) = 8" by (simp add: world0_def)
  from enc(2) [rule_format, of 0] enc(2) [rule_format, of 2] enc(2) [rule_format, of 3] n
  have "heap (snd (encode lenient [0, 2, 3] (world0 (Some 10)))) 0 = plain"
    "heap (snd (encode lenient [0, 2, 3] (world0 (Some 10)))) 2 = big"
    "heap (snd (encode lenient [0, 2, 3] (world0 (Some 10)))) 3 = light"
    by (simp_all add: world0_def objects_def)
  with enc(1) dec n lenient_encode_batch show ?thesis by simp
qed

subsection \<open>The offload path\<close>

text \<open>
  Claim C8 fails on the code. The claim: the header encoding of the metadata (base64 of
  JSON) succeeds for every map and can be reversed. The code: \<open>json.dumps\<close> is given the
  map with its \<open>bytes\<close> values. In every runtime whose \<open>json.dumps\<close> raises
  \<open>TypeError\<close> on a map with an entry, as CPython's does, the header of every such map
  is a \<open>TypeError\<close>, and \<open>putLargePayload\<close> raises it before anything is sent.
\<close>

theorem metadata_header_raises:
  assumes "\<forall>m. m \<noteq> [] \<longrightarrow> json_dumps rt m = Inl TypeError"
      and "m \<noteq> []"
  shows "temporal_metadata_header rt m = Inl TypeError
         \<and> (\<forall>a w h. metadata (heap w a) = m
                    \<and> sha256_hexdigest rt (PyBytes (data (heap w a))) = Inr h
                \<longrightarrow> putLargePayload rt a w = (Inl TypeError, w))"
  using assms by (simp add: temporal_metadata_header_def putLargePayload_def)

theorem metadata_header_raises_witness:
  "temporal_metadata_header cpython [(''trace'', [CHR 0xFF, CHR 0xFE])] = Inl TypeError
   \<and> metadata (heap (world0 (Some 10)) 2) = [(''encoding'', ''binary/plain'')]
   \<and> putLargePayload cpython 2 (world0 (Some 10)) = (Inl TypeError, world0 (Some 10))"
proof -
  have m: "metadata (heap (world0 (Some 10)) 2) = [(''encoding'', ''binary/plain'')]"
    by (simp add: model_defs double_defs)
  have h: "sha256_hexdigest cpython (PyBytes (data (heap (world0 (Some 10)) 2)))
             = Inr (hex_digits (data (heap (world0 (Some 10)) 2)))"
    by (simp add: cpython_def)
  have "temporal_metadata_header cpython [(''trace'', [CHR 0xFF, CHR 0xFE])] = Inl TypeError"
    using metadata_header_raises [OF cpython_json_dumps, of "[(''trace'', [CHR 0xFF, CHR 0xFE])]"]
    by simp
  moreover have "putLargePayload cpython 2 (world0 (Some 10)) = (Inl TypeError, world0 (Some 10))"
    using metadata_header_raises [OF cpython_json_dumps, of "[(''encoding'', ''binary/plain'')]"]
      m h by blast
  ultimately show ?thesis using m by blast
qed

text \<open>
  Claim C3 fails on the code. The claim: the payload that the offload path returns
  carries the marker key, so that \<open>decode\<close> takes it for a reference. The code: what
  \<open>putLargePayload\<close> returns is what the converter made of the reference record,
  untouched; \<open>REMOTE_CODEC_NAME\<close> is read in \<open>decode\<close> and written nowhere. With a
  converter that does not write the marker itself (the Temporal converter writes
  \<open>encoding\<close> and \<open>messageType\<close>), the payload returned has no marker and \<open>decode\<close>
  returns it as application data.
\<close>

theorem offload_output_has_no_marker:
  assumes "\<forall>r p. to_payloads rt r = Inr p \<longrightarrow> \<not> has_marker p"
      and "putLargePayload rt a w = (Inr r, w')"
  shows "(\<exists>h k. to_payloads rt
                  \<lparr>rp_metadata = metadata (heap w a), rp_size = length (data (heap w a)),
                   rp_digest = ''sha256:'' @ h, rp_key = k\<rparr> = Inr (heap w' r))
         \<and> \<not> has_marker (heap w' r)
         \<and> decode rt [r] w' = (Inr [r], w')"
  using putLargePayload_result [OF assms(2)] putLargePayload_unmarked [OF assms]
  by blast

theorem offload_output_has_no_marker_witness:
  "fst (putLargePayload lenient 2 (world0 (Some 10))) = Inr 8
   \<and> heap (snd (putLargePayload lenient 2 (world0 (Some 10)))) 8 = reference None
   \<and> \<not> has_marker (heap (snd (putLargePayload lenient 2 (world0 (Some 10)))) 8)
   \<and> decode lenient [8] (snd (putLargePayload lenient 2 (world0 (Some 10)))) =
       (Inr [8], snd (putLargePayload lenient 2 (world0 (Some 10))))"
  using offload_output_has_no_marker [OF lenient_converter, of 2 "world0 (Some 10)" 8
      "snd (putLargePayload lenient 2 (world0 (Some 10)))"]
  by (simp add: lenient_put_big)

text \<open>
  Claim C1 fails on the code. The claim: for a payload above the threshold,
  \<open>decode(encode([P]))\<close> gives back the bytes and metadata of \<open>P\<close>, with one store call
  and one fetch call. The code: with a converter that does not write the marker,
  \<open>decode(encode([P]))\<close> never sends a \<open>GET\<close>, and what it returns, if it returns, is
  the new object holding the reference record, not \<open>P\<close>.
\<close>

theorem offload_round_trip_returns_reference:
  assumes "\<forall>r p. to_payloads rt r = Inr p \<longrightarrow> \<not> has_marker p"
      and "int (ByteSize rt (heap w a)) > min_bytes (self w)"
      and "round_trip rt [a] w = (res, w')"
  shows "filter (\<lambda>q. req_method q = GET) (requests_log w')
           = filter (\<lambda>q. req_method q = GET) (requests_log w)
         \<and> (\<forall>rs. res = Inr rs \<longrightarrow>
               rs = [next_addr w]
               \<and> (\<exists>h k. to_payloads rt
                     \<lparr>rp_metadata = metadata (heap w a), rp_size = length (data (heap w a)),
                      rp_digest = ''sha256:'' @ h, rp_key = k\<rparr> = Inr (heap w' (next_addr w))))"
proof (cases "putLargePayload rt a w")
  case (Pair r1 w1)
  note log = putLargePayload_log [OF Pair]
  show ?thesis
  proof (cases r1)
    case (Inl e)
    with assms(2,3) Pair have "res = Inl e" "w' = w1"
      by (auto simp: round_trip_def encode_single)
    with log show ?thesis by auto
  next
    case (Inr r)
    with Pair have p: "putLargePayload rt a w = (Inr r, w1)" by simp
    note out = putLargePayload_unmarked [OF assms(1) p]
    from assms(2,3) p out have "res = Inr [r]" "w' = w1"
      by (auto simp: round_trip_def encode_single)
    moreover from putLargePayload_fresh [OF p] have "r = next_addr w" by simp
    ultimately show ?thesis using log putLargePayload_result [OF p] by auto
  qed
qed

text \<open>
  The scenario of the specification (threshold ten, twenty bytes, namespace \<open>ns1\<close>). In
  \<open>lenient\<close> the round trip returns object 8, the reference, and sends no \<open>GET\<close>; in
  \<open>cpython\<close> it raises \<open>TypeError\<close> in \<open>encode\<close> and sends nothing.
\<close>

theorem offload_round_trip_returns_reference_witness:
  "int (ByteSize lenient (heap (world0 (Some 10)) 2)) > min_bytes (self (world0 (Some 10)))
   \<and> fst (round_trip lenient [2] (world0 (Some 10))) = Inr [8]
   \<and> heap (snd (round_trip lenient [2] (world0 (Some 10)))) 8 = reference None
   \<and> filter (\<lambda>q. req_method q = GET)
        (requests_log (snd (round_trip lenient [2] (world0 (Some 10))))) = []
   \<and> round_trip cpython [2] (world0 (Some 10)) = (Inl TypeError, world0 (Some 10))"
proof -
  have big: "int (ByteSize lenient (heap (world0 (Some 10)) 2)) > min_bytes (self (world0 (Some 10)))"
    by (simp add: model_defs double_defs)
  have run: "round_trip lenient [2] (world0 (Some 10)) =
      (fst (round_trip lenient [2] (world0 (Some 10))),
       snd (round_trip lenient [2] (world0 (Some 10))))"
    by simp
  from offload_round_trip_returns_reference [OF lenient_converter big run]
  have "filter (\<lambda>q. req_method q = GET)
          (requests_log (snd (round_trip lenient [2] (world0 (Some 10)))))
        = filter (\<lambda>q. req_method q = GET) (requests_log (world0 (Some 10)))"
    by blast
  then show ?thesis
    using big cpython_round_trip_big by (simp add: lenient_round_trip_big lenient_put_big)
qed

subsection \<open>The rehydration path\<close>

text \<open>
  Claim C7 fails on the code. The claim: the fetch is a \<open>GET\<close> to
  \<open>{baseURL}/v2/blobs/get\<close> with the query parameter \<open>key\<close> and the size as a plain
  integer in \<open>X-Payload-Expected-Content-Length\<close>. The code: whatever the runtime, the
  only request \<open>getLargePayload\<close> ever makes goes to \<open>url + "v2/blobs/put"\<close>, carries the
  set \<open>{"key", key}\<close> for \<open>params\<close>, and has for the header what
  \<open>base64.b64decode(size).decode()\<close> returned.
\<close>

theorem getLargePayload_request:
  assumes "getLargePayload rt a w = (res, w')"
  shows "requests_log w' = requests_log w
         \<or> (\<exists>r b expected.
               from_payloads rt (heap w a) = Inr r
               \<and> b64decode rt (rp_size r) = Inr b \<and> bytes_decode b = Inr expected
               \<and> requests_log w' = requests_log w @
                   [\<lparr>req_method = GET,
                     req_url = url (self w) @ ''v2/blobs/put'',
                     req_params = ParamSet (remdups [''key'', rp_key r]),
                     req_headers = [(''Content-Type'', ''application/octet-stream''),
                                    (''X-Payload-Expected-Content-Length'', expected)],
                     req_data = []\<rparr>])"
  using assms unfolding getLargePayload_def request_def alloc_def
  by (auto split: sum.splits prod.splits if_splits)

text \<open>
  In \<open>lenient\<close> the request for the reference to \<open>big\<close> is made, and the store has
  nothing to \<open>GET\<close> at \<open>/v2/blobs/put\<close>.
\<close>

theorem getLargePayload_request_witness:
  "requests_log (snd (getLargePayload lenient 5 (world0 None))) \<noteq> requests_log (world0 None)
   \<and> (\<exists>r b expected.
         from_payloads lenient (heap (world0 None) 5) = Inr r
         \<and> b64decode lenient (rp_size r) = Inr b \<and> bytes_decode b = Inr expected
         \<and> requests_log (snd (getLargePayload lenient 5 (world0 None))) =
             requests_log (world0 None) @
               [\<lparr>req_method = GET,
                 req_url = url (self (world0 None)) @ ''v2/blobs/put'',
                 req_params = ParamSet (remdups [''key'', rp_key r]),
                 req_headers = [(''Content-Type'', ''application/octet-stream''),
                                (''X-Payload-Expected-Content-Length'', expected)],
                 req_data = []\<rparr>])"
proof -
  have ne: "requests_log (snd (getLargePayload lenient 5 (world0 None)))
              \<noteq> requests_log (world0 None)"
    by (simp add: lenient_get_reference) (simp add: world0_def)
  have run: "getLargePayload lenient 5 (world0 None) =
      (fst (getLargePayload lenient 5 (world0 None)),
       snd (getLargePayload lenient 5 (world0 None)))"
    by simp
  from getLargePayload_request [OF run] ne show ?thesis by blast
qed

text \<open>
  Claim C2 fails on the code. The claim: after the fetch the digest of the fetched bytes
  is computed again, and a digest that differs makes \<open>decode\<close> fail with an integrity
  error. The code: in every runtime whose \<open>base64.b64decode\<close> raises \<open>TypeError\<close> on an
  integer, as CPython's does, \<open>decode\<close> of a payload with the marker raises before
  anything is sent: the converter's exception if the content is no reference record,
  \<open>TypeError\<close> otherwise. No payload is returned, and the comparison of line 101 is never
  reached, whether the stored bytes are intact or not.
\<close>

theorem rehydration_raises_before_fetch:
  assumes "\<forall>n. b64decode rt n = Inl TypeError"
      and "has_marker (heap w a)"
  shows "decode rt [a] w =
           (case from_payloads rt (heap w a) of
              Inl e \<Rightarrow> (Inl e, w)
            | Inr r \<Rightarrow> (Inl TypeError, w))"
  using assms by (simp add: decode_single getLargePayload_def split: sum.splits)

theorem rehydration_raises_before_fetch_witness:
  "has_marker (heap (world0 None) 5)
   \<and> from_payloads cpython (heap (world0 None) 5) = Inr big_record
   \<and> decode cpython [5] (world0 None) = (Inl TypeError, world0 None)"
proof -
  have m: "has_marker (heap (world0 None) 5)"
    by (simp add: model_defs double_defs)
  from rehydration_raises_before_fetch [OF cpython_b64decode m] m show ?thesis
    by (simp add: cpython_from_payloads_reference)
qed

end
